theory Spec2Isabelle
  imports Complex_Main "HOL-Library.Sublist"
begin

section \<open>Data model of \<open>src/pages/Index.tsx\<close>\<close>

text \<open>
  The repository holds one React component, \<open>Index\<close>, whose only data-flow logic is the
  asynchronous handler \<open>analyzeUser\<close> (the same text in every copy of the component under
  \<open>src/\<close>). The interfaces \<open>Submission\<close> and \<open>AnalysisResult\<close> become records; an optional
  field (\<open>verdict?: string\<close>) becomes an \<open>option\<close>. JavaScript strings are modelled as
  \<open>string\<close>, one \<open>char\<close> per code unit, so the model covers code units up to 255.
  JavaScript numbers that hold identifiers and time stamps are \<open>int\<close>, lengths are \<open>nat\<close>,
  and the percentage, which the code computes in double-precision arithmetic, is a
  \<open>number\<close>: an IEEE 754 binary64 value, with the rounding of every operation written out.
\<close>

record Member =
  handle :: string

record Problem =
  problem_contestId :: "int option"
  problem_index :: string
  problem_name :: string
  problem_type :: string
  problem_rating :: "int option"

record Author =
  author_contestId :: "int option"
  members :: "Member list"
  participantType :: string
  ghost :: bool
  room :: "int option"
  startTimeSeconds :: "int option"

record Submission =
  submission_id :: int
  contestId :: "int option"
  creationTimeSeconds :: int
  relativeTimeSeconds :: int
  problem :: Problem
  author :: Author
  programmingLanguage :: string
  verdict :: "string option"
  testset :: string
  passedTestCount :: int
  timeConsumedMillis :: int
  memoryConsumedBytes :: int

text \<open>
  A JavaScript number: NaN, the two infinities, or a finite binary64 value, held as the
  real number it denotes. The sign of zero is not modelled; the operands of the handler's
  arithmetic are array lengths and the literal \<open>100\<close>.
\<close>

datatype number = NaN | PosInf | NegInf | Finite real

record AnalysisResult =
  isCheat :: bool
  totalSubmissions :: nat
  skippedSubmissions :: nat
  skippedPercentage :: number
  suspiciousSubmissions :: "Submission list"

text \<open>
  \<open>userInfo\<close> has type \<open>any\<close> in the source; the component reads its \<open>handle\<close>, \<open>rating\<close>
  and \<open>maxRating\<close>.
\<close>

record Profile =
  profile_handle :: string
  profile_rating :: "int option"
  maxRating :: "int option"

text \<open>
  The JSON envelope both endpoints answer with: \<open>status\<close>, an optional \<open>comment\<close> and the
  \<open>result\<close> array (here \<open>resultList\<close>, the name \<open>result\<close> being the component's state
  variable).
\<close>

record 'a Envelope =
  status :: string
  comment :: "string option"
  resultList :: "'a list"

text \<open>
  A value caught by \<open>catch (error)\<close>: an \<open>Error\<close> object with its message, or anything else
  (\<open>error instanceof Error\<close> is false).
\<close>

datatype thrown = Error string | NonError

text \<open>
  What \<open>await fetch(url)\<close> followed by \<open>await response.json()\<close> can do: the fetch promise
  rejects, or it resolves to a response with an HTTP status code whose \<open>json()\<close> either
  rejects (\<open>Inl\<close>) or yields the parsed payload (\<open>Inr\<close>).
\<close>

datatype 'a fetched = Rejected thrown | Resolved nat "thrown + 'a"

text \<open>
  The remote platform, as \<open>fetch\<close> sees it: one answer per URL, for each of the two
  endpoints the handler calls.
\<close>

record remote =
  user_info :: "string \<Rightarrow> Profile Envelope fetched"
  user_status :: "string \<Rightarrow> Submission Envelope fetched"

record Toast =
  title :: string
  description :: string
  variant :: "string option"

text \<open>
  The component's state variables (\<open>useState\<close>) that the handler reads or sets, and the
  effects it has on the outside: the toasts shown, the URLs fetched and the values passed
  to \<open>console.error\<close>, each in the order they happen.
\<close>

record state =
  username :: string
  loading :: bool
  result :: "AnalysisResult option"
  userInfo :: "Profile option"
  toasts :: "Toast list"
  requests :: "string list"
  console :: "thrown list"

section \<open>String helpers\<close>

text \<open>
  \<open>String.prototype.trim\<close> strips white space and line terminators from both ends; among
  the code units up to 255 these are TAB, LF, VT, FF, CR, SP and NBSP.
\<close>

definition isWhiteSpace :: "char \<Rightarrow> bool" where
  "isWhiteSpace c =
     (let n = (of_char c :: nat)
      in n = 9 \<or> n = 10 \<or> n = 11 \<or> n = 12 \<or> n = 13 \<or> n = 32 \<or> n = 160)"

definition trim :: "string \<Rightarrow> string" where
  "trim s = rev (dropWhile isWhiteSpace (rev (dropWhile isWhiteSpace s)))"

text \<open>\<open>a || b\<close> on an optional string: \<open>undefined\<close> and the empty string are falsy.\<close>

definition or_else :: "string option \<Rightarrow> string \<Rightarrow> string" where
  "or_else a b = (case a of None \<Rightarrow> b | Some s \<Rightarrow> if s = [] then b else s)"

text \<open>Decimal digits of a length, as a template literal prints it.\<close>

fun show_nat :: "nat \<Rightarrow> string" where
  "show_nat n =
     (if n < 10 then [''0123456789'' ! n]
      else show_nat (n div 10) @ [''0123456789'' ! (n mod 10)])"

declare show_nat.simps [simp del]

text \<open>\<open>xs[0]\<close>: \<open>undefined\<close> on an empty array, no exception.\<close>

definition first :: "'a list \<Rightarrow> 'a option" where
  "first xs = (case xs of [] \<Rightarrow> None | x # _ \<Rightarrow> Some x)"

definition info_url :: "string \<Rightarrow> string" where
  "info_url h = ''https://codeforces.com/api/user.info?handles='' @ h"

definition status_url :: "string \<Rightarrow> string" where
  "status_url h = ''https://codeforces.com/api/user.status?handle='' @ h"

section \<open>Double-precision arithmetic\<close>

text \<open>
  \<open>binary_exponent x\<close> is the integer \<open>e\<close> with \<open>2 ^ e \<le> x < 2 ^ (e + 1)\<close>, for \<open>x > 0\<close>:
  computed from the integer part of \<open>x\<close> when \<open>x \<ge> 1\<close>, and from \<open>1 / x\<close> rounded up
  otherwise.
\<close>

fun log2_floor :: "nat \<Rightarrow> nat" where
  "log2_floor n = (if n < 2 then 0 else Suc (log2_floor (n div 2)))"

declare log2_floor.simps [simp del]

definition log2_ceiling :: "nat \<Rightarrow> nat" where
  "log2_ceiling n = (if n \<le> 1 then 0 else Suc (log2_floor (n - 1)))"

definition binary_exponent :: "real \<Rightarrow> int" where
  "binary_exponent x =
     (if 1 \<le> x then int (log2_floor (nat \<lfloor>x\<rfloor>))
      else - int (log2_ceiling (nat \<lceil>1 / x\<rceil>)))"

text \<open>The nearest integer, the even one of the two on a tie.\<close>

definition round_half_even :: "real \<Rightarrow> int" where
  "round_half_even m =
     (let f = \<lfloor>m\<rfloor>; r = m - of_int f
      in if r < 1 / 2 then f
         else if 1 / 2 < r then f + 1
         else if even f then f else f + 1)"

text \<open>
  The binary64 value an exact result \<open>x\<close> is rounded to (round to nearest, ties to even):
  a multiple of \<open>2 ^ q\<close>, where \<open>q\<close> is the exponent of \<open>x\<close> less the 52 fraction bits, and
  no smaller than \<open>-1074\<close>, the exponent of the subnormal values. A result that rounds to
  \<open>2 ^ 1024\<close> or beyond is an infinity.
\<close>

definition round_double :: "real \<Rightarrow> number" where
  "round_double x =
     (if x = 0 then Finite 0
      else
        let q = max (binary_exponent \<bar>x\<bar>) (- 1022) - 52;
            y = of_int (round_half_even (\<bar>x\<bar> * 2 powi (- q))) * 2 powi q
        in if 2 powi 1024 \<le> y then (if 0 < x then PosInf else NegInf)
           else Finite (sgn x * y))"

text \<open>The operators \<open>/\<close> and \<open>*\<close> on numbers.\<close>

fun number_divide :: "number \<Rightarrow> number \<Rightarrow> number" where
  "number_divide NaN _ = NaN"
| "number_divide _ NaN = NaN"
| "number_divide (Finite a) (Finite b) =
     (if b = 0 then (if a = 0 then NaN else if 0 < a then PosInf else NegInf)
      else round_double (a / b))"
| "number_divide (Finite a) _ = Finite 0"
| "number_divide PosInf (Finite b) = (if 0 \<le> b then PosInf else NegInf)"
| "number_divide NegInf (Finite b) = (if 0 \<le> b then NegInf else PosInf)"
| "number_divide _ _ = NaN"

fun number_times :: "number \<Rightarrow> number \<Rightarrow> number" where
  "number_times NaN _ = NaN"
| "number_times _ NaN = NaN"
| "number_times (Finite a) (Finite b) = round_double (a * b)"
| "number_times (Finite a) PosInf = (if a = 0 then NaN else if 0 < a then PosInf else NegInf)"
| "number_times (Finite a) NegInf = (if a = 0 then NaN else if 0 < a then NegInf else PosInf)"
| "number_times PosInf (Finite b) = (if b = 0 then NaN else if 0 < b then PosInf else NegInf)"
| "number_times NegInf (Finite b) = (if b = 0 then NaN else if 0 < b then NegInf else PosInf)"
| "number_times PosInf PosInf = PosInf"
| "number_times NegInf NegInf = PosInf"
| "number_times _ _ = NegInf"

section \<open>The analysis\<close>

text \<open>\<open>submissions.filter(sub => sub.verdict === 'SKIPPED')\<close>\<close>

definition skippedOf :: "Submission list \<Rightarrow> Submission list" where
  "skippedOf submissions = filter (\<lambda>sub. verdict sub = Some ''SKIPPED'') submissions"

text \<open>
  Lines 86 to 101: the statistics computed from the fetched list. The two lengths are
  numbers as they stand (an array length is below \<open>2 ^ 32\<close>); the quotient and the product
  are each rounded.
\<close>

definition analysisResult :: "Submission list \<Rightarrow> AnalysisResult" where
  "analysisResult submissions =
     (let skipped = skippedOf submissions;
          total = length submissions;
          skippedCount = length skipped;
          percentage =
            (if total > 0
             then number_times
                    (number_divide (Finite (real skippedCount)) (Finite (real total)))
                    (Finite 100)
             else Finite 0);
          cheat = (skippedCount > 0)
      in \<lparr> isCheat = cheat,
           totalSubmissions = total,
           skippedSubmissions = skippedCount,
           skippedPercentage = percentage,
           suspiciousSubmissions = take 10 skipped \<rparr>)"

text \<open>
  \<open>x.toFixed(1)\<close>, which the component prints the percentage with. For a finite \<open>x\<close> it
  takes the number of tenths nearest to the exact value of \<open>\<bar>x\<bar>\<close>, the larger one on a tie,
  and writes it with one decimal, after a minus sign when \<open>x < 0\<close>. From \<open>10 ^ 21\<close> on the
  result is the exponent notation of \<open>toString\<close>, which is not modelled: \<open>None\<close>.
\<close>

definition toFixed1 :: "number \<Rightarrow> string option" where
  "toFixed1 x =
     (case x of
        NaN \<Rightarrow> Some ''NaN''
      | PosInf \<Rightarrow> Some ''Infinity''
      | NegInf \<Rightarrow> Some ''-Infinity''
      | Finite v \<Rightarrow>
          if 10 ^ 21 \<le> \<bar>v\<bar> then None
          else
            let n = nat \<lfloor>\<bar>v\<bar> * 10 + 1 / 2\<rfloor>;
                digits = show_nat (n div 10) @ ''.'' @ show_nat (n mod 10)
            in Some (if v < 0 then ''-'' @ digits else digits))"

section \<open>The handler \<open>analyzeUser\<close>\<close>

definition toast :: "Toast \<Rightarrow> state \<Rightarrow> state" where
  "toast t s = s\<lparr>toasts := toasts s @ [t]\<rparr>"

definition fetch :: "string \<Rightarrow> state \<Rightarrow> state" where
  "fetch url s = s\<lparr>requests := requests s @ [url]\<rparr>"

text \<open>
  Lines 84 to 116, after both payloads were accepted: compute the result, store it and
  announce it.
\<close>

definition analyze_submissions :: "Submission list \<Rightarrow> state \<Rightarrow> state" where
  "analyze_submissions submissions s =
     (let r = analysisResult submissions;
          s1 = s\<lparr>result := Some r\<rparr>
      in if isCheat r
         then toast \<lparr> title = ''Potential Cheater Detected!'',
                      description = ''Found '' @ show_nat (skippedSubmissions r)
                                      @ '' skipped submissions'',
                      variant = Some ''destructive'' \<rparr> s1
         else toast \<lparr> title = ''Analysis Complete'',
                      description = ''No suspicious activity detected'',
                      variant = None \<rparr> s1)"

text \<open>
  The body of the \<open>try\<close> block: the state it leaves, and the value thrown, if any. Both
  URLs interpolate the state variable \<open>username\<close> as it is.
\<close>

definition try_block :: "remote \<Rightarrow> state \<Rightarrow> state \<times> thrown option" where
  "try_block net s =
     (let s1 = fetch (info_url (username s)) s
      in (case user_info net (info_url (username s)) of
            Rejected e \<Rightarrow> (s1, Some e)
          | Resolved code body \<Rightarrow>
              (case body of
                 Inl e \<Rightarrow> (s1, Some e)
               | Inr userData \<Rightarrow>
                   (if status userData \<noteq> ''OK''
                    then (s1, Some (Error (or_else (comment userData) ''User not found'')))
                    else
                      (let s2 = s1\<lparr>userInfo := first (resultList userData)\<rparr>;
                           s3 = fetch (status_url (username s)) s2
                       in (case user_status net (status_url (username s)) of
                             Rejected e \<Rightarrow> (s3, Some e)
                           | Resolved code' body' \<Rightarrow>
                               (case body' of
                                  Inl e \<Rightarrow> (s3, Some e)
                                | Inr submissionsData \<Rightarrow>
                                    (if status submissionsData \<noteq> ''OK''
                                     then (s3, Some (Error (or_else (comment submissionsData)
                                                       ''Failed to fetch submissions'')))
                                     else (analyze_submissions
                                             (resultList submissionsData) s3, None)))))))))"

text \<open>The \<open>catch\<close> block.\<close>

definition catch_block :: "thrown \<Rightarrow> state \<Rightarrow> state" where
  "catch_block e s =
     toast \<lparr> title = ''Error'',
             description = (case e of Error m \<Rightarrow> m | NonError \<Rightarrow> ''Failed to analyze user''),
             variant = Some ''destructive'' \<rparr>
       (s\<lparr>console := console s @ [e]\<rparr>)"

definition analyzeUser :: "remote \<Rightarrow> state \<Rightarrow> state" where
  "analyzeUser net s =
     (if trim (username s) = []
      then toast \<lparr> title = ''Error'',
                   description = ''Please enter a username'',
                   variant = Some ''destructive'' \<rparr> s
      else
        let s0 = s\<lparr>loading := True, result := None, userInfo := None\<rparr>;
            (s1, thrown) = try_block net s0;
            s2 = (case thrown of None \<Rightarrow> s1 | Some e \<Rightarrow> catch_block e s1)
        in s2\<lparr>loading := False\<rparr>)"

section \<open>Runs that reach the analysis\<close>

text \<open>
  The submission list a run for handle \<open>h\<close> gets to analyse: the history payload's list,
  when both endpoints answer with a JSON payload whose \<open>status\<close> is \<open>OK\<close>. In every other
  case the handler throws before line 84.
\<close>

definition history_of :: "remote \<Rightarrow> string \<Rightarrow> Submission list option" where
  "history_of net h =
     (case user_info net (info_url h) of
        Resolved _ (Inr userData) \<Rightarrow>
          (if status userData = ''OK''
           then (case user_status net (status_url h) of
                   Resolved _ (Inr submissionsData) \<Rightarrow>
                     (if status submissionsData = ''OK''
                      then Some (resultList submissionsData) else None)
                 | _ \<Rightarrow> None)
           else None)
      | _ \<Rightarrow> None)"

section \<open>Concrete inputs\<close>

definition mk_submission :: "int \<Rightarrow> string option \<Rightarrow> Submission" where
  "mk_submission i v =
     \<lparr> submission_id = i, contestId = Some 1, creationTimeSeconds = 1700000000 - i,
       relativeTimeSeconds = 0,
       problem = \<lparr> problem_contestId = Some 1, problem_index = ''A'', problem_name = ''Sum'',
                   problem_type = ''PROGRAMMING'', problem_rating = None \<rparr>,
       author = \<lparr> author_contestId = Some 1, members = [\<lparr> handle = ''tourist'' \<rparr>],
                  participantType = ''CONTESTANT'', ghost = False, room = None,
                  startTimeSeconds = None \<rparr>,
       programmingLanguage = ''C++'', verdict = v, testset = ''TESTS'',
       passedTestCount = 0, timeConsumedMillis = 0, memoryConsumedBytes = 0 \<rparr>"

definition ok_envelope :: "'a list \<Rightarrow> 'a Envelope" where
  "ok_envelope xs = \<lparr> status = ''OK'', comment = None, resultList = xs \<rparr>"

definition tourist :: Profile where
  "tourist = \<lparr> profile_handle = ''tourist'', profile_rating = Some 3800, maxRating = Some 4000 \<rparr>"

definition serving :: "nat \<Rightarrow> Profile Envelope \<Rightarrow> Submission Envelope \<Rightarrow> remote" where
  "serving code userData submissionsData =
     \<lparr> user_info = (\<lambda>url. Resolved code (Inr userData)),
       user_status = (\<lambda>url. Resolved code (Inr submissionsData)) \<rparr>"

definition init :: "string \<Rightarrow> state" where
  "init h = \<lparr> username = h, loading = False, result = None, userInfo = None,
              toasts = [], requests = [], console = [] \<rparr>"

definition three_subs :: "Submission list" where
  "three_subs = [mk_submission 3 (Some ''SKIPPED''), mk_submission 2 None, mk_submission 1 (Some ''OK'')]"

definition eleven_of_twelve :: "Submission list" where
  "eleven_of_twelve =
     map (\<lambda>i. mk_submission i (if i = 7 then Some ''WRONG_ANSWER'' else Some ''SKIPPED''))
       [12, 11, 10, 9, 8, 7, 6, 5, 4, 3, 2, 1]"

text \<open>A payload that reports a failure, and the toast the \<open>catch\<close> block shows.\<close>

definition failed_envelope :: "string option \<Rightarrow> 'a Envelope" where
  "failed_envelope c = \<lparr> status = ''FAILED'', comment = c, resultList = [] \<rparr>"

definition error_toast :: "string \<Rightarrow> Toast" where
  "error_toast m = \<lparr> title = ''Error'', description = m, variant = Some ''destructive'' \<rparr>"

text \<open>
  The same remote with every HTTP status code \<open>c\<close> replaced by \<open>f c\<close>; the payloads are
  untouched.
\<close>

definition recode :: "(nat \<Rightarrow> nat) \<Rightarrow> 'a fetched \<Rightarrow> 'a fetched" where
  "recode f r = (case r of Rejected e \<Rightarrow> Rejected e | Resolved code body \<Rightarrow> Resolved (f code) body)"

definition with_codes :: "(nat \<Rightarrow> nat) \<Rightarrow> remote \<Rightarrow> remote" where
  "with_codes f net =
     \<lparr> user_info = (\<lambda>url. recode f (user_info net url)),
       user_status = (\<lambda>url. recode f (user_status net url)) \<rparr>"

definition twenty_three_of_eighty :: "Submission list" where
  "twenty_three_of_eighty =
     replicate 23 (mk_submission 1 (Some ''SKIPPED'')) @ replicate 57 (mk_submission 2 (Some ''OK''))"

definition eight_of_twelve :: "Submission list" where
  "eight_of_twelve =
     map (\<lambda>p. mk_submission p
                (if p \<in> set [2, 4, 5, 8, 9, 10, 11, 12] then Some ''SKIPPED'' else Some ''OK''))
       [1, 2, 3, 4, 5, 6, 7, 8, 9, 10, 11, 12]"

section \<open>Facts about the double-precision arithmetic\<close>

lemma log2_floor_bounds:
  "0 < n \<Longrightarrow> 2 ^ log2_floor n \<le> n \<and> n < 2 ^ Suc (log2_floor n)"
proof (induction n rule: log2_floor.induct)
  case (1 n)
  show ?case
  proof (cases "n < 2")
    case True
    with "1.prems" have "n = 1" by simp
    then show ?thesis by (simp add: log2_floor.simps)
  next
    case False
    then have pos: "0 < n div 2" by simp
    from "1.IH" [OF False pos]
    have ih: "2 ^ log2_floor (n div 2) \<le> n div 2" "n div 2 < 2 ^ Suc (log2_floor (n div 2))"
      by simp_all
    have e: "log2_floor n = Suc (log2_floor (n div 2))"
      using False by (subst log2_floor.simps) simp
    from ih show ?thesis unfolding e by simp linarith
  qed
qed

lemma log2_ceiling_upper: "n \<le> 2 ^ log2_ceiling n"
proof (cases "n \<le> 1")
  case True
  then show ?thesis by (simp add: log2_ceiling_def)
next
  case False
  then have "0 < n - 1" by simp
  from log2_floor_bounds [OF this] have "n - 1 < 2 ^ Suc (log2_floor (n - 1))" by simp
  then show ?thesis using False by (simp add: log2_ceiling_def)
qed

lemma log2_ceiling_lower: "1 < n \<Longrightarrow> 2 ^ (log2_ceiling n - 1) < n"
proof -
  assume a: "1 < n"
  then have "0 < n - 1" by simp
  from log2_floor_bounds [OF this] have "2 ^ log2_floor (n - 1) \<le> n - 1" by simp
  then show ?thesis using a by (simp add: log2_ceiling_def)
qed

lemma binary_exponent_lower:
  assumes "0 < x"
  shows "2 powi binary_exponent x \<le> x"
proof (cases "1 \<le> x")
  case True
  then have f: "1 \<le> \<lfloor>x\<rfloor>" by simp
  then have pos: "0 < nat \<lfloor>x\<rfloor>" by simp
  from log2_floor_bounds [OF pos] have "2 ^ log2_floor (nat \<lfloor>x\<rfloor>) \<le> nat \<lfloor>x\<rfloor>" by simp
  then have "(of_nat (2 ^ log2_floor (nat \<lfloor>x\<rfloor>)) :: real) \<le> of_nat (nat \<lfloor>x\<rfloor>)"
    by (simp only: of_nat_le_iff)
  also have "(of_nat (nat \<lfloor>x\<rfloor>) :: real) = of_int \<lfloor>x\<rfloor>"
    using f by simp
  also have "\<dots> \<le> x" by (rule of_int_floor_le)
  finally show ?thesis
    using True by (simp add: binary_exponent_def)
next
  case False
  define k where "k = log2_ceiling (nat \<lceil>1 / x\<rceil>)"
  have "nat \<lceil>1 / x\<rceil> \<le> 2 ^ k"
    unfolding k_def by (rule log2_ceiling_upper)
  then have "\<lceil>1 / x\<rceil> \<le> 2 ^ k"
    by (simp add: nat_le_iff)
  then have "1 / x \<le> of_int (2 ^ k)"
    by (simp only: ceiling_le_iff)
  then have "1 / x \<le> 2 ^ k" by simp
  then have "1 \<le> 2 ^ k * x"
    using assms by (simp add: divide_le_eq)
  then have "1 / 2 ^ k \<le> x"
    by (simp add: divide_le_eq mult.commute)
  moreover have "(2 :: real) powi (- int k) = 1 / 2 ^ k"
    by (simp add: power_int_minus divide_inverse)
  ultimately show ?thesis
    using False by (simp add: binary_exponent_def k_def)
qed

lemma binary_exponent_upper:
  assumes "0 < x"
  shows "x < 2 powi (binary_exponent x + 1)"
proof (cases "1 \<le> x")
  case True
  then have f: "1 \<le> \<lfloor>x\<rfloor>" by simp
  then have pos: "0 < nat \<lfloor>x\<rfloor>" by simp
  define e where "e = log2_floor (nat \<lfloor>x\<rfloor>)"
  from log2_floor_bounds [OF pos] have "nat \<lfloor>x\<rfloor> < 2 ^ Suc e"
    unfolding e_def by blast
  then have "\<lfloor>x\<rfloor> < int (2 ^ Suc e)"
    using f by linarith
  then have "x < of_int (int (2 ^ Suc e))"
    by (simp only: floor_less_iff)
  also have "(of_int (int (2 ^ Suc e)) :: real) = 2 ^ Suc e"
    by simp
  finally have "x < 2 ^ Suc e" .
  moreover have "(2 :: real) powi (int e + 1) = 2 ^ Suc e"
    by (simp add: power_int_add)
  moreover have "binary_exponent x = int e"
    using True by (simp add: binary_exponent_def e_def)
  ultimately show ?thesis
    by (simp only:)
next
  case False
  then have x1: "x < 1" by simp
  define n where "n = nat \<lceil>1 / x\<rceil>"
  define k where "k = log2_ceiling n"
  have y: "1 < 1 / x" using assms x1 by simp
  then have "1 < \<lceil>1 / x\<rceil>" by (simp only: less_ceiling_iff of_int_1)
  then have n1: "1 < n" unfolding n_def by linarith
  from log2_ceiling_lower [OF n1] have lt: "2 ^ (k - 1) < n" by (simp only: k_def)
  have kpos: "0 < k"
    using n1 by (simp add: k_def log2_ceiling_def)
  have "int (2 ^ (k - 1)) < \<lceil>1 / x\<rceil>"
    using lt unfolding n_def by (simp only: zless_nat_eq_int_zless)
  then have "int (2 ^ (k - 1)) \<le> \<lceil>1 / x\<rceil> - 1" by linarith
  then have "(of_int (int (2 ^ (k - 1))) :: real) \<le> of_int (\<lceil>1 / x\<rceil> - 1)"
    by (simp only: of_int_le_iff)
  also have "(of_int (\<lceil>1 / x\<rceil> - 1) :: real) = of_int \<lceil>1 / x\<rceil> - 1"
    by simp
  also have "\<dots> < 1 / x"
    using ceiling_correct [of "1 / x"] by blast
  finally have "of_int (int (2 ^ (k - 1))) < 1 / x" .
  moreover have "(of_int (int (2 ^ (k - 1))) :: real) = 2 ^ (k - 1)" by simp
  ultimately have "(2 :: real) ^ (k - 1) < 1 / x" by (simp only:)
  then have "2 ^ (k - 1) * x < 1"
    using assms by (simp only: less_divide_eq if_True)
  then have "x < 1 / 2 ^ (k - 1)"
    by (simp add: less_divide_eq mult.commute)
  moreover have "(2 :: real) powi (- int k + 1) = 1 / 2 ^ (k - 1)"
  proof -
    have e: "- int k + 1 = - int (k - 1)" using kpos by linarith
    show ?thesis unfolding e by (simp add: power_int_minus divide_inverse)
  qed
  moreover have "binary_exponent x = - int k"
    using False by (simp add: binary_exponent_def k_def n_def)
  ultimately show ?thesis
    by (simp only:)
qed

lemma round_half_even_cases:
  "round_half_even m = \<lfloor>m\<rfloor> \<or> (round_half_even m = \<lfloor>m\<rfloor> + 1 \<and> of_int \<lfloor>m\<rfloor> < m)"
  by (auto simp add: round_half_even_def Let_def)

lemma round_half_even_ge: "of_int n \<le> m \<Longrightarrow> n \<le> round_half_even m"
proof -
  assume "of_int n \<le> m"
  then have "n \<le> \<lfloor>m\<rfloor>" by (simp only: le_floor_iff)
  then show ?thesis using round_half_even_cases [of m] by linarith
qed

lemma round_half_even_le: "m \<le> of_int n \<Longrightarrow> round_half_even m \<le> n"
proof -
  assume a: "m \<le> of_int n"
  from round_half_even_cases [of m] show ?thesis
  proof
    assume "round_half_even m = \<lfloor>m\<rfloor>"
    moreover have "\<lfloor>m\<rfloor> \<le> n" using a by (simp add: floor_le_iff)
    ultimately show ?thesis by simp
  next
    assume b: "round_half_even m = \<lfloor>m\<rfloor> + 1 \<and> of_int \<lfloor>m\<rfloor> < m"
    then have "(of_int \<lfloor>m\<rfloor> :: real) < of_int n" using a by linarith
    then have "\<lfloor>m\<rfloor> < n" by (simp only: of_int_less_iff)
    then show ?thesis using b by linarith
  qed
qed

lemma round_double_bounded:
  assumes "0 \<le> x" and "x \<le> of_int c" and "c \<le> 2 ^ 52"
  shows "\<exists>y. round_double x = Finite y \<and> 0 \<le> y \<and> y \<le> of_int c"
proof (cases "x = 0")
  case True
  then show ?thesis using assms by (simp add: round_double_def)
next
  case False
  then have pos: "0 < x" using assms(1) by simp
  define e where "e = binary_exponent x"
  define q where "q = max e (- 1022) - 52"
  define k where "k = nat (- q)"
  define y where "y = (of_int (round_half_even (x * 2 powi (- q))) :: real) * 2 powi q"
  have c52: "(of_int c :: real) \<le> 2 ^ 52"
  proof -
    have "(of_int c :: real) \<le> of_int (2 ^ 52)" using assms(3) by (simp only: of_int_le_iff)
    then show ?thesis by simp
  qed
  have "2 powi e \<le> x" unfolding e_def using pos by (rule binary_exponent_lower)
  then have "(2 :: real) powi e \<le> 2 ^ 52" using assms(2) c52 by linarith
  then have "(2 :: real) powi e \<le> 2 powi 52" by (simp only: power_int_numeral)
  then have e52: "e \<le> 52" by (rule power_int_le_imp_le_exp [rotated]) simp_all
  then have q0: "q \<le> 0" by (simp add: q_def)
  then have qk: "- q = int k" "q = - int k" by (simp_all add: k_def)
  have p1: "(2 :: real) powi (- q) = 2 ^ k" unfolding qk(1) by simp
  have p2: "(2 :: real) powi q = 1 / 2 ^ k" unfolding qk(2) by (simp add: power_int_minus divide_inverse)
  have "x * 2 ^ k \<le> of_int c * 2 ^ k" using assms(2) by simp
  also have "(of_int c :: real) * 2 ^ k = of_int (c * 2 ^ k)" by simp
  finally have "round_half_even (x * 2 ^ k) \<le> c * 2 ^ k" by (rule round_half_even_le)
  then have "(of_int (round_half_even (x * 2 ^ k)) :: real) \<le> of_int (c * 2 ^ k)"
    by (simp only: of_int_le_iff)
  then have "(of_int (round_half_even (x * 2 ^ k)) :: real) \<le> of_int c * 2 ^ k" by simp
  then have up: "y \<le> of_int c" unfolding y_def p1 p2 by (simp add: divide_le_eq)
  have "(of_int 0 :: real) \<le> x * 2 ^ k" using pos by simp
  then have "0 \<le> round_half_even (x * 2 ^ k)" by (rule round_half_even_ge)
  then have lo: "0 \<le> y" unfolding y_def p1 p2 by simp
  have "(2 :: real) ^ 52 < 2 ^ 1024" by (rule power_strict_increasing) simp_all
  then have "y < 2 ^ 1024" using up c52 by linarith
  then have no: "\<not> 2 powi 1024 \<le> y" by (simp only: power_int_numeral not_le)
  have "round_double x = Finite y"
    using False pos no
    unfolding round_double_def Let_def y_def [symmetric] q_def e_def
    by (simp only: abs_of_pos sgn_pos if_False mult_1 y_def q_def e_def)
  then show ?thesis using lo up by blast
qed

lemma round_double_small:
  assumes "0 < x" and "x \<le> 2 ^ 52"
  shows "round_double x =
     Finite (of_int (round_half_even
                (x * 2 powi (- (max (binary_exponent x) (- 1022) - 52))))
             * 2 powi (max (binary_exponent x) (- 1022) - 52))"
proof -
  have "x \<le> of_int (2 ^ 52)" using assms(2) by simp
  with assms(1) have "\<exists>y. round_double x = Finite y \<and> 0 \<le> y \<and> y \<le> of_int (2 ^ 52)"
    by (intro round_double_bounded) simp_all
  then obtain y where y: "round_double x = Finite y" by blast
  show ?thesis
    using y assms(1) unfolding round_double_def Let_def
    by (simp only: abs_of_pos sgn_pos mult_1 split: if_splits) simp_all
qed

lemmas double_eval = round_double_small binary_exponent_def log2_ceiling_def log2_floor.simps
  round_half_even_def Let_def

text \<open>
  Rounding at work: a tie goes to the even neighbour, downwards and upwards, and \<open>0.1\<close> is
  the double \<open>3602879701896397 / 2 ^ 55\<close>.
\<close>

lemma round_double_examples:
  "round_double ((2 ^ 53 + 1) / 2 ^ 60) = Finite (2 ^ 53 / 2 ^ 60)"
  "round_double ((2 ^ 53 + 3) / 2 ^ 60) = Finite ((2 ^ 53 + 4) / 2 ^ 60)"
  "round_double (1 / 10) = Finite (3602879701896397 / 2 ^ 55)"
  by (simp_all add: double_eval)

lemma round_half_even_error: "\<bar>of_int (round_half_even m) - m\<bar> \<le> 1 / 2"
proof -
  have "of_int \<lfloor>m\<rfloor> \<le> m" "m < of_int \<lfloor>m\<rfloor> + 1"
    by linarith+
  then show ?thesis
    by (auto simp add: round_half_even_def Let_def abs_le_iff)
qed

lemma round_double_error:
  assumes "0 \<le> x" and "x \<le> 2 ^ b" and "b \<le> 52" and "round_double x = Finite y"
  shows "\<bar>y - x\<bar> \<le> 2 powi (int b - 53)"
proof (cases "x = 0")
  case True
  then show ?thesis using assms(4) by (simp add: round_double_def)
next
  case False
  then have pos: "0 < x" using assms(1) by simp
  define e where "e = binary_exponent x"
  define q where "q = max e (- 1022) - 52"
  define k where "k = nat (- q)"
  have "(2 :: real) ^ b \<le> 2 ^ 52" using assms(3) by (intro power_increasing) simp_all
  then have x52: "x \<le> 2 ^ 52" using assms(2) by linarith
  have "2 powi e \<le> x" unfolding e_def using pos by (rule binary_exponent_lower)
  then have "(2 :: real) powi e \<le> 2 ^ b" using assms(2) by linarith
  then have "(2 :: real) powi e \<le> 2 powi int b" by (simp only: power_int_of_nat)
  then have eb: "e \<le> int b" by (rule power_int_le_imp_le_exp [rotated]) simp_all
  then have qb: "q \<le> int b - 52" by (simp add: q_def)
  then have q0: "q \<le> 0" using assms(3) by linarith
  then have qk: "- q = int k" "q = - int k" by (simp_all add: k_def)
  have p1: "(2 :: real) powi (- q) = 2 ^ k" unfolding qk(1) by simp
  have p2: "(2 :: real) powi q = 1 / 2 ^ k" unfolding qk(2) by (simp add: power_int_minus divide_inverse)
  have "round_double x = Finite (of_int (round_half_even (x * 2 powi (- q))) * 2 powi q)"
    unfolding q_def e_def using pos x52 by (rule round_double_small)
  then have y: "y = of_int (round_half_even (x * 2 ^ k)) / 2 ^ k"
    using assms(4) unfolding p1 p2 by simp
  have "y - x = (of_int (round_half_even (x * 2 ^ k)) - x * 2 ^ k) / 2 ^ k"
    unfolding y by (simp add: diff_divide_distrib)
  then have "\<bar>y - x\<bar> = \<bar>of_int (round_half_even (x * 2 ^ k)) - x * 2 ^ k\<bar> / 2 ^ k"
    by (simp add: abs_divide)
  also have "\<dots> \<le> (1 / 2) / 2 ^ k"
    by (intro divide_right_mono round_half_even_error) simp
  also have "(1 / 2) / (2 :: real) ^ k = 2 powi (q - 1)"
  proof -
    have "q - 1 = - int (Suc k)" using qk(2) by linarith
    then have "(2 :: real) powi (q - 1) = 2 powi (- int (Suc k))" by (simp only:)
    also have "\<dots> = inverse (2 ^ Suc k)" by (simp only: power_int_minus power_int_of_nat)
    also have "\<dots> = (1 / 2) / 2 ^ k" by (simp add: field_simps)
    finally show ?thesis by (simp only:)
  qed
  also have "(2 :: real) powi (q - 1) \<le> 2 powi (int b - 53)"
    using qb by (intro power_int_increasing) simp_all
  finally show ?thesis .
qed

lemma percentage_bounds:
  assumes "k \<le> n" and "0 < n"
  shows "\<exists>p. number_times (number_divide (Finite (real k)) (Finite (real n))) (Finite 100) = Finite p
           \<and> 0 \<le> p \<and> p \<le> 100 \<and> \<bar>p - real k / real n * 100\<bar> \<le> 2 powi (- 45)"
proof -
  have x1: "0 \<le> real k / real n" "real k / real n \<le> of_int 1"
    using assms by simp_all
  from round_double_bounded [OF x1] obtain d
    where d: "round_double (real k / real n) = Finite d" "0 \<le> d" "d \<le> 1"
    by auto
  have "real k / real n \<le> 2 ^ 0" using x1(2) by simp
  from round_double_error [OF x1(1) this _ d(1)]
  have de: "\<bar>d - real k / real n\<bar> \<le> 2 powi (- 53)" by simp
  have x2: "0 \<le> d * 100" "d * 100 \<le> of_int 100"
    using d(2,3) by simp_all
  from round_double_bounded [OF x2] obtain p
    where p: "round_double (d * 100) = Finite p" "0 \<le> p" "p \<le> 100"
    by auto
  have "d * 100 \<le> 2 ^ 7" using x2(2) by simp
  from round_double_error [OF x2(1) this _ p(1)]
  have pe: "\<bar>p - d * 100\<bar> \<le> 2 powi (- 46)" by simp
  define t where "t = real k / real n"
  have "\<bar>p - t * 100\<bar> \<le> \<bar>p - d * 100\<bar> + 100 * \<bar>d - t\<bar>"
  proof -
    have "p - t * 100 = (p - d * 100) + 100 * (d - t)" by simp
    then have "\<bar>p - t * 100\<bar> \<le> \<bar>p - d * 100\<bar> + \<bar>100 * (d - t)\<bar>"
      by (simp only: abs_triangle_ineq)
    moreover have "\<bar>100 * (d - t)\<bar> = 100 * \<bar>d - t\<bar>"
      by (simp only: abs_mult abs_numeral)
    ultimately show ?thesis by (simp only:)
  qed
  also have "\<dots> \<le> 2 powi (- 46) + 100 * 2 powi (- 53)"
    using pe de unfolding t_def by (intro add_mono mult_left_mono) simp_all
  also have "\<dots> \<le> 2 powi (- 45)"
    by simp
  finally have err: "\<bar>p - real k / real n * 100\<bar> \<le> 2 powi (- 45)"
    unfolding t_def .
  have "number_times (number_divide (Finite (real k)) (Finite (real n))) (Finite 100) = Finite p"
    using assms(2) d(1) p(1) by simp
  then show ?thesis using p(2,3) err by blast
qed

section \<open>Auxiliary facts\<close>

lemma toast_simps [simp]:
  "toasts (toast t s) = toasts s @ [t]"
  "requests (toast t s) = requests s"
  "result (toast t s) = result s"
  "userInfo (toast t s) = userInfo s"
  "username (toast t s) = username s"
  "console (toast t s) = console s"
  "loading (toast t s) = loading s"
  by (simp_all add: toast_def)

lemma fetch_simps [simp]:
  "requests (fetch u s) = requests s @ [u]"
  "toasts (fetch u s) = toasts s"
  "result (fetch u s) = result s"
  "userInfo (fetch u s) = userInfo s"
  "username (fetch u s) = username s"
  "console (fetch u s) = console s"
  "loading (fetch u s) = loading s"
  by (simp_all add: fetch_def)

lemma result_analyze_submissions [simp]:
  "result (analyze_submissions subs s) = Some (analysisResult subs)"
  "requests (analyze_submissions subs s) = requests s"
  "userInfo (analyze_submissions subs s) = userInfo s"
  "console (analyze_submissions subs s) = console s"
  by (simp_all add: analyze_submissions_def Let_def)

lemma try_block_success:
  assumes "history_of net (username s) = Some subs"
  shows "\<exists>ud c c' sd. user_info net (info_url (username s)) = Resolved c (Inr ud) \<and> status ud = ''OK''
     \<and> user_status net (status_url (username s)) = Resolved c' (Inr sd) \<and> status sd = ''OK'' \<and> resultList sd = subs"
  using assms unfolding history_of_def
  by (auto split: fetched.splits sum.splits if_splits)

lemma analyzeUser_success:
  assumes "trim (username s) \<noteq> []" and "history_of net (username s) = Some subs"
  shows "result (analyzeUser net s) = Some (analysisResult subs)"
proof -
  from try_block_success[OF assms(2)] obtain ud c c' sd where
    h: "user_info net (info_url (username s)) = Resolved c (Inr ud)" "status ud = ''OK''"
     "user_status net (status_url (username s)) = Resolved c' (Inr sd)" "status sd = ''OK''" "resultList sd = subs"
    by blast
  show ?thesis using assms(1) h
    by (simp add: analyzeUser_def try_block_def Let_def)
qed


lemma history_of_serving [simp]:
  "history_of (serving c (ok_envelope ps) (ok_envelope subs)) h = Some subs"
  by (simp add: history_of_def serving_def ok_envelope_def)

lemma trim_tourist [simp]: "trim ''tourist'' \<noteq> []"
  by (simp add: trim_def isWhiteSpace_def)

section \<open>The classification rule and the statistics\<close>

text \<open>
  C1. Whenever the handler reaches the analysis of a fetched list, a submission of the list
  belongs to the suspicious partition exactly when its verdict is present and is the string
  \<open>SKIPPED\<close>; a submission with no verdict, or any other verdict, does not. The number
  stored in the result is the size of that partition, everything retained for display
  comes from it, and \<open>isCheat\<close> holds exactly when that number is greater than zero.
\<close>

theorem classification_iff_skipped:
  assumes "trim (username s) \<noteq> []" and "history_of net (username s) = Some subs"
  shows "\<exists>r. result (analyzeUser net s) = Some r
      \<and> (\<forall>sub\<in>set subs. sub \<in> set (skippedOf subs) \<longleftrightarrow> verdict sub = Some ''SKIPPED'')
      \<and> (\<forall>sub\<in>set subs. verdict sub = None \<longrightarrow> sub \<notin> set (skippedOf subs))
      \<and> skippedSubmissions r = length (skippedOf subs)
      \<and> set (suspiciousSubmissions r) \<subseteq> set (skippedOf subs)
      \<and> (isCheat r \<longleftrightarrow> 0 < skippedSubmissions r)"
proof -
  have r: "result (analyzeUser net s) = Some (analysisResult subs)"
    using assms by (rule analyzeUser_success)
  have "set (take 10 (skippedOf subs)) \<subseteq> set (skippedOf subs)"
    by (rule set_take_subset)
  then show ?thesis
    unfolding r by (simp add: analysisResult_def Let_def skippedOf_def)
qed

theorem classification_iff_skipped_witness:
  "trim (username (init ''tourist'')) \<noteq> []
   \<and> history_of (serving 200 (ok_envelope [tourist]) (ok_envelope three_subs))
        (username (init ''tourist'')) = Some three_subs
   \<and> (\<exists>r. result (analyzeUser (serving 200 (ok_envelope [tourist]) (ok_envelope three_subs))
                (init ''tourist'')) = Some r
        \<and> isCheat r \<and> skippedSubmissions r = 1)
   \<and> mk_submission 3 (Some ''SKIPPED'') \<in> set (skippedOf three_subs)
   \<and> mk_submission 2 None \<notin> set (skippedOf three_subs)
   \<and> mk_submission 1 (Some ''OK'') \<notin> set (skippedOf three_subs)"
proof -
  have h1: "trim (username (init ''tourist'')) \<noteq> []"
    by (simp add: init_def)
  have h2: "history_of (serving 200 (ok_envelope [tourist]) (ok_envelope three_subs))
        (username (init ''tourist'')) = Some three_subs"
    by simp
  have m: "mk_submission 3 (Some ''SKIPPED'') \<in> set three_subs"
    "mk_submission 2 None \<in> set three_subs" "mk_submission 1 (Some ''OK'') \<in> set three_subs"
    by (simp_all add: three_subs_def)
  have v: "verdict (mk_submission i x) = x" for i x
    by (simp add: mk_submission_def)
  have sk: "length (skippedOf three_subs) = 1"
    by (simp add: skippedOf_def three_subs_def v)
  from classification_iff_skipped [OF h1 h2] h1 h2 m show ?thesis
    by (auto simp add: v sk)
qed

lemma analysisResult_simps [simp]:
  "isCheat (analysisResult subs) = (0 < length (skippedOf subs))"
  "totalSubmissions (analysisResult subs) = length subs"
  "skippedSubmissions (analysisResult subs) = length (skippedOf subs)"
  "skippedPercentage (analysisResult subs) =
     (if 0 < length subs
      then number_times
             (number_divide (Finite (real (length (skippedOf subs)))) (Finite (real (length subs))))
             (Finite 100)
      else Finite 0)"
  "suspiciousSubmissions (analysisResult subs) = take 10 (skippedOf subs)"
  by (simp_all add: analysisResult_def Let_def)

text \<open>
  C2. For a fetched list of \<open>N\<close> submissions, \<open>K\<close> of which (counted by position in the
  list) carry the verdict \<open>SKIPPED\<close>, the result has \<open>totalSubmissions = N\<close> and
  \<open>skippedSubmissions = K\<close>, and \<open>skippedSubmissions \<le> totalSubmissions\<close>. The count is
  taken before the list for display is cut to ten entries: the witness has eleven skipped
  submissions, a count of 11 and 10 entries displayed.
\<close>

theorem counts_are_true_counts:
  assumes "trim (username s) \<noteq> []" and "history_of net (username s) = Some subs"
  shows "\<exists>r. result (analyzeUser net s) = Some r
      \<and> totalSubmissions r = length subs
      \<and> skippedSubmissions r = card {i. i < length subs \<and> verdict (subs ! i) = Some ''SKIPPED''}
      \<and> skippedSubmissions r \<le> totalSubmissions r"
proof -
  have r: "result (analyzeUser net s) = Some (analysisResult subs)"
    using assms by (rule analyzeUser_success)
  have k: "length (skippedOf subs) = card {i. i < length subs \<and> verdict (subs ! i) = Some ''SKIPPED''}"
    unfolding skippedOf_def by (rule length_filter_conv_card)
  have le: "length (skippedOf subs) \<le> length subs"
    unfolding skippedOf_def by (rule length_filter_le)
  show ?thesis
    unfolding r using k le by simp
qed

lemma skippedOf_eleven:
  "skippedOf eleven_of_twelve =
     map (\<lambda>i. mk_submission i (Some ''SKIPPED'')) [12, 11, 10, 9, 8, 6, 5, 4, 3, 2, 1]"
  by (simp add: skippedOf_def eleven_of_twelve_def mk_submission_def)

theorem counts_are_true_counts_witness:
  "trim (username (init ''tourist'')) \<noteq> []
   \<and> history_of (serving 200 (ok_envelope [tourist]) (ok_envelope eleven_of_twelve))
        (username (init ''tourist'')) = Some eleven_of_twelve
   \<and> (\<exists>r. result (analyzeUser (serving 200 (ok_envelope [tourist]) (ok_envelope eleven_of_twelve))
                (init ''tourist'')) = Some r
        \<and> totalSubmissions r = 12 \<and> skippedSubmissions r = 11
        \<and> card {i. i < length eleven_of_twelve \<and> verdict (eleven_of_twelve ! i) = Some ''SKIPPED''} = 11
        \<and> length (suspiciousSubmissions r) = 10)"
proof -
  let ?net = "serving 200 (ok_envelope [tourist]) (ok_envelope eleven_of_twelve)"
  have h1: "trim (username (init ''tourist'')) \<noteq> []"
    by (simp add: init_def)
  have h2: "history_of ?net (username (init ''tourist'')) = Some eleven_of_twelve"
    by simp
  have r: "result (analyzeUser ?net (init ''tourist'')) = Some (analysisResult eleven_of_twelve)"
    using h1 h2 by (rule analyzeUser_success)
  have n: "length eleven_of_twelve = 12"
    by (simp add: eleven_of_twelve_def)
  have k: "length (skippedOf eleven_of_twelve) = 11"
    by (simp add: skippedOf_eleven)
  from counts_are_true_counts [OF h1 h2] h1 h2 show ?thesis
    unfolding r by (simp add: n k)
qed

text \<open>
  C3. With \<open>K\<close> suspicious submissions, \<open>suspiciousSubmissions\<close> has length \<open>min K 10\<close> and
  is the first \<open>min K 10\<close> elements of the suspicious partition: a prefix of it, which in
  turn is a subsequence of the fetched list, so the remote order is kept.
\<close>

theorem suspicious_is_prefix:
  assumes "trim (username s) \<noteq> []" and "history_of net (username s) = Some subs"
  shows "\<exists>r. result (analyzeUser net s) = Some r
      \<and> length (suspiciousSubmissions r) = min (length (skippedOf subs)) 10
      \<and> suspiciousSubmissions r = take (min (length (skippedOf subs)) 10) (skippedOf subs)
      \<and> prefix (suspiciousSubmissions r) (skippedOf subs)
      \<and> subseq (skippedOf subs) subs
      \<and> subseq (suspiciousSubmissions r) subs"
proof -
  have r: "result (analyzeUser net s) = Some (analysisResult subs)"
    using assms by (rule analyzeUser_success)
  have p: "prefix (take 10 (skippedOf subs)) (skippedOf subs)"
    by (rule take_is_prefix)
  have q: "subseq (skippedOf subs) subs"
    unfolding skippedOf_def by (rule subseq_filter_left)
  have "subseq (take 10 (skippedOf subs)) (skippedOf subs)"
    using p by (rule prefix_imp_subseq)
  then have q': "subseq (take 10 (skippedOf subs)) subs"
    using q by (rule subseq_order.order_trans)
  have t: "take (min (length (skippedOf subs)) 10) (skippedOf subs) = take 10 (skippedOf subs)"
    by (simp add: min_def)
  show ?thesis
    unfolding r using p q q' t by simp
qed

theorem suspicious_is_prefix_witness:
  "trim (username (init ''tourist'')) \<noteq> []
   \<and> history_of (serving 200 (ok_envelope [tourist]) (ok_envelope eleven_of_twelve))
        (username (init ''tourist'')) = Some eleven_of_twelve
   \<and> (\<exists>r. result (analyzeUser (serving 200 (ok_envelope [tourist]) (ok_envelope eleven_of_twelve))
                (init ''tourist'')) = Some r
        \<and> suspiciousSubmissions r =
            map (\<lambda>i. mk_submission i (Some ''SKIPPED'')) [12, 11, 10, 9, 8, 6, 5, 4, 3, 2]
        \<and> subseq (suspiciousSubmissions r) eleven_of_twelve)"
proof -
  let ?net = "serving 200 (ok_envelope [tourist]) (ok_envelope eleven_of_twelve)"
  have h1: "trim (username (init ''tourist'')) \<noteq> []"
    by (simp add: init_def)
  have h2: "history_of ?net (username (init ''tourist'')) = Some eleven_of_twelve"
    by simp
  from suspicious_is_prefix [OF h1 h2] h1 h2 show ?thesis
    by (auto simp add: skippedOf_eleven)
qed

text \<open>
  Without the guard on the total, an empty list would give \<open>0 / 0\<close>, which is NaN, and
  NaN times 100 is NaN.
\<close>

lemma unguarded_percentage_is_NaN:
  "number_times (number_divide (Finite (real (0 :: nat))) (Finite (real (0 :: nat)))) (Finite 100) = NaN"
  by simp

text \<open>
  C4. \<open>skippedPercentage\<close> is \<open>K / N * 100\<close>, as the double-precision quotient and product
  give it, when \<open>N > 0\<close>, and exactly 0 when \<open>N = 0\<close>. It is always a finite number between
  0 and 100, and differs from the exact value of \<open>K / N * 100\<close> by at most \<open>2 ^ -45\<close>.
\<close>

theorem percentage_formula_and_range:
  assumes "trim (username s) \<noteq> []" and "history_of net (username s) = Some subs"
  shows "\<exists>r. result (analyzeUser net s) = Some r
      \<and> skippedPercentage r =
          (if 0 < length subs
           then number_times
                  (number_divide (Finite (real (length (skippedOf subs))))
                     (Finite (real (length subs))))
                  (Finite 100)
           else Finite 0)
      \<and> (subs = [] \<longrightarrow> skippedPercentage r = Finite 0)
      \<and> (\<exists>p. skippedPercentage r = Finite p \<and> 0 \<le> p \<and> p \<le> 100
             \<and> (0 < length subs \<longrightarrow>
                   \<bar>p - real (length (skippedOf subs)) / real (length subs) * 100\<bar>
                     \<le> 2 powi (- 45)))"
proof -
  have r: "result (analyzeUser net s) = Some (analysisResult subs)"
    using assms by (rule analyzeUser_success)
  have le: "length (skippedOf subs) \<le> length subs"
    unfolding skippedOf_def by (rule length_filter_le)
  show ?thesis
  proof (cases "0 < length subs")
    case True
    from percentage_bounds [OF le True] obtain p where
      p: "number_times
            (number_divide (Finite (real (length (skippedOf subs)))) (Finite (real (length subs))))
            (Finite 100) = Finite p"
         "0 \<le> p" "p \<le> 100"
         "\<bar>p - real (length (skippedOf subs)) / real (length subs) * 100\<bar> \<le> 2 powi (- 45)"
      by blast
    have "skippedPercentage (analysisResult subs) = Finite p"
      using True p(1) by (simp only: analysisResult_simps if_True)
    then show ?thesis
      unfolding r using True p by auto
  next
    case False
    then have "skippedPercentage (analysisResult subs) = Finite 0"
      by (simp only: analysisResult_simps if_False)
    then show ?thesis
      unfolding r using False by auto
  qed
qed

lemma skippedOf_twenty_three:
  "length twenty_three_of_eighty = 80" "length (skippedOf twenty_three_of_eighty) = 23"
  by (simp_all add: twenty_three_of_eighty_def skippedOf_def mk_submission_def)

theorem percentage_formula_and_range_witness:
  "trim (username (init ''tourist'')) \<noteq> []
   \<and> history_of (serving 200 (ok_envelope [tourist]) (ok_envelope three_subs))
        (username (init ''tourist'')) = Some three_subs
   \<and> map_option skippedPercentage
        (result (analyzeUser (serving 200 (ok_envelope [tourist]) (ok_envelope three_subs))
           (init ''tourist''))) = Some (Finite (2345624805922133 / 70368744177664))
   \<and> history_of (serving 200 (ok_envelope [tourist]) (ok_envelope twenty_three_of_eighty))
        (username (init ''tourist'')) = Some twenty_three_of_eighty
   \<and> map_option skippedPercentage
        (result (analyzeUser (serving 200 (ok_envelope [tourist])
           (ok_envelope twenty_three_of_eighty)) (init ''tourist''))) =
       Some (Finite (8092405580431359 / 281474976710656))
   \<and> toFixed1 (Finite (8092405580431359 / 281474976710656)) = Some ''28.7''
   \<and> history_of (serving 200 (ok_envelope [tourist]) (ok_envelope []))
        (username (init ''tourist'')) = Some []
   \<and> map_option skippedPercentage
        (result (analyzeUser (serving 200 (ok_envelope [tourist]) (ok_envelope []))
           (init ''tourist''))) = Some (Finite 0)"
proof -
  have h1: "trim (username (init ''tourist'')) \<noteq> []"
    by (simp add: init_def)
  have h2: "history_of (serving 200 (ok_envelope [tourist]) (ok_envelope subs))
      (username (init ''tourist'')) = Some subs" for subs
    by simp
  have sk: "length (skippedOf three_subs) = 1" "length three_subs = 3"
    by (simp_all add: skippedOf_def three_subs_def mk_submission_def)
  have f: "toFixed1 (Finite (8092405580431359 / 281474976710656)) = Some ''28.7''"
    by (simp add: toFixed1_def show_nat.simps)
  have A: "map_option skippedPercentage
        (result (analyzeUser (serving 200 (ok_envelope [tourist]) (ok_envelope three_subs))
           (init ''tourist''))) = Some (Finite (2345624805922133 / 70368744177664))"
    using percentage_formula_and_range [OF h1 h2, of three_subs]
    by (auto simp add: sk double_eval)
  have B: "map_option skippedPercentage
        (result (analyzeUser (serving 200 (ok_envelope [tourist])
           (ok_envelope twenty_three_of_eighty)) (init ''tourist''))) =
       Some (Finite (8092405580431359 / 281474976710656))"
    using percentage_formula_and_range [OF h1 h2, of twenty_three_of_eighty]
    by (auto simp add: skippedOf_twenty_three double_eval)
  have C: "map_option skippedPercentage
        (result (analyzeUser (serving 200 (ok_envelope [tourist]) (ok_envelope []))
           (init ''tourist''))) = Some (Finite 0)"
    using percentage_formula_and_range [OF h1 h2, of "[]"]
    by auto
  from h1 h2 f A B C show ?thesis
    by simp
qed

section \<open>Input validation\<close>

lemma trim_empty_iff: "trim s = [] \<longleftrightarrow> (\<forall>c\<in>set s. isWhiteSpace c)"
proof
  assume t: "trim s = []"
  have "dropWhile isWhiteSpace s = []"
  proof (rule ccontr)
    assume ne: "dropWhile isWhiteSpace s \<noteq> []"
    then have "\<not> isWhiteSpace (hd (dropWhile isWhiteSpace s))"
      by (rule hd_dropWhile)
    moreover have "hd (dropWhile isWhiteSpace s) \<in> set (rev (dropWhile isWhiteSpace s))"
      using ne by simp
    moreover have "\<forall>c\<in>set (rev (dropWhile isWhiteSpace s)). isWhiteSpace c"
      using t by (simp add: trim_def dropWhile_eq_Nil_conv)
    ultimately show False by blast
  qed
  then show "\<forall>c\<in>set s. isWhiteSpace c"
    by (simp add: dropWhile_eq_Nil_conv)
next
  assume "\<forall>c\<in>set s. isWhiteSpace c"
  then have d: "dropWhile isWhiteSpace s = []"
    by (simp add: dropWhile_eq_Nil_conv)
  show "trim s = []"
    unfolding trim_def d by simp
qed

text \<open>
  C5. A handle that is empty or holds only white space is empty after trimming. The handler
  then shows the error toast \<open>Please enter a username\<close> (the spec's \<open>InvalidInput\<close>) and
  returns: no URL is fetched, whatever the remote would answer, and \<open>loading\<close>, \<open>result\<close>
  and \<open>userInfo\<close> are left as they were.
\<close>

theorem blank_handle_rejected_locally:
  assumes "\<forall>c\<in>set (username s). isWhiteSpace c"
  shows "trim (username s) = []
     \<and> analyzeUser net s = toast (error_toast ''Please enter a username'') s
     \<and> toasts (analyzeUser net s) = toasts s @ [error_toast ''Please enter a username'']
     \<and> requests (analyzeUser net s) = requests s
     \<and> result (analyzeUser net s) = result s
     \<and> userInfo (analyzeUser net s) = userInfo s
     \<and> loading (analyzeUser net s) = loading s"
proof -
  have t: "trim (username s) = []"
    using assms by (simp add: trim_empty_iff)
  then have "analyzeUser net s = toast (error_toast ''Please enter a username'') s"
    by (simp add: analyzeUser_def error_toast_def)
  with t show ?thesis by simp
qed

theorem blank_handle_rejected_locally_witness:
  "list_all isWhiteSpace (username (init ''  ''))
   \<and> requests (analyzeUser (serving 200 (ok_envelope [tourist]) (ok_envelope three_subs))
        (init ''  '')) = []
   \<and> map description (toasts (analyzeUser (serving 200 (ok_envelope [tourist])
        (ok_envelope three_subs)) (init ''  ''))) = [''Please enter a username'']
   \<and> result (analyzeUser (serving 200 (ok_envelope [tourist]) (ok_envelope three_subs))
        (init ''  '')) = None
   \<and> list_all isWhiteSpace (username (init ''''))
   \<and> requests (analyzeUser (serving 200 (ok_envelope [tourist]) (ok_envelope three_subs))
        (init '''')) = []
   \<and> map description (toasts (analyzeUser (serving 200 (ok_envelope [tourist])
        (ok_envelope three_subs)) (init ''''))) = [''Please enter a username'']"
proof -
  have h: "\<forall>c\<in>set (username (init ''  '')). isWhiteSpace c"
    by (simp add: init_def isWhiteSpace_def)
  have l: "list_all isWhiteSpace (username (init ''  ''))"
    using h by (simp add: list_all_iff)
  have h': "\<forall>c\<in>set (username (init '''')). isWhiteSpace c"
    by (simp add: init_def)
  have l': "list_all isWhiteSpace (username (init ''''))"
    by (simp add: init_def)
  from blank_handle_rejected_locally [OF h] blank_handle_rejected_locally [OF h'] l l'
  show ?thesis
    by (simp add: init_def error_toast_def)
qed

section \<open>Failures of the two fetches\<close>

lemma profile_not_ok:
  assumes "trim (username s) \<noteq> []"
    and "user_info net (info_url (username s)) = Resolved code (Inr userData)"
    and "status userData \<noteq> ''OK''"
  shows "analyzeUser net s =
     (toast (error_toast (or_else (comment userData) ''User not found''))
        (fetch (info_url (username s)) (s\<lparr>loading := True, result := None, userInfo := None\<rparr>)
           \<lparr>console := console s @ [Error (or_else (comment userData) ''User not found'')]\<rparr>))
       \<lparr>loading := False\<rparr>"
  using assms
  by (simp add: analyzeUser_def try_block_def catch_block_def error_toast_def Let_def)

lemma history_not_ok:
  assumes "trim (username s) \<noteq> []"
    and "user_info net (info_url (username s)) = Resolved code (Inr userData)"
    and "status userData = ''OK''"
    and "user_status net (status_url (username s)) = Resolved code' (Inr submissionsData)"
    and "status submissionsData \<noteq> ''OK''"
  shows "analyzeUser net s =
     (toast (error_toast (or_else (comment submissionsData) ''Failed to fetch submissions''))
        (fetch (status_url (username s))
           (fetch (info_url (username s)) (s\<lparr>loading := True, result := None, userInfo := None\<rparr>)
              \<lparr>userInfo := first (resultList userData)\<rparr>)
           \<lparr>console := console s @ [Error (or_else (comment submissionsData)
                                          ''Failed to fetch submissions'')]\<rparr>))
       \<lparr>loading := False\<rparr>"
  using assms
  by (simp add: analyzeUser_def try_block_def catch_block_def error_toast_def Let_def)

lemma profile_ok:
  assumes "trim (username s) \<noteq> []"
    and "user_info net (info_url (username s)) = Resolved code (Inr userData)"
    and "status userData = ''OK''"
  shows "userInfo (analyzeUser net s) = first (resultList userData)"
    and "requests (analyzeUser net s) = requests s @ [info_url (username s), status_url (username s)]"
  using assms
  by (simp_all add: analyzeUser_def try_block_def catch_block_def Let_def
      split: fetched.splits sum.splits)

lemma urls_differ [simp]: "info_url h \<noteq> status_url h'" "status_url h' \<noteq> info_url h"
  by (simp_all add: info_url_def status_url_def)

lemma or_else_cases:
  "or_else None d = d" "or_else (Some []) d = d" "m \<noteq> [] \<Longrightarrow> or_else (Some m) d = m"
  by (simp_all add: or_else_def)

text \<open>
  C6, as stated, fails where the remote comment is present but empty: \<open>comment || 'User not
  found'\<close> takes the generic message, since the empty string is falsy. The payload
  \<open>{status: FAILED, comment: ""}\<close> is reported as \<open>User not found\<close>, not as the comment.
\<close>

theorem empty_comment_counterexample:
  "comment (failed_envelope (Some '''') :: Profile Envelope) = Some ''''
   \<and> status (failed_envelope (Some '''') :: Profile Envelope) \<noteq> ''OK''
   \<and> map description
        (toasts (analyzeUser (serving 400 (failed_envelope (Some '''')) (ok_envelope three_subs))
           (init ''tourist''))) = [''User not found'']
   \<and> map description
        (toasts (analyzeUser (serving 400 (failed_envelope (Some '''')) (ok_envelope three_subs))
           (init ''tourist''))) \<noteq> ['''']"
proof -
  let ?net = "serving 400 (failed_envelope (Some '''')) (ok_envelope three_subs)"
  have h1: "trim (username (init ''tourist'')) \<noteq> []"
    by (simp add: init_def)
  have h2: "user_info ?net (info_url (username (init ''tourist''))) =
      Resolved 400 (Inr (failed_envelope (Some '''')))"
    by (simp add: serving_def)
  have h3: "status (failed_envelope (Some '''') :: Profile Envelope) \<noteq> ''OK''"
    by (simp add: failed_envelope_def)
  show ?thesis
    unfolding profile_not_ok [OF h1 h2 h3]
    by (simp add: failed_envelope_def or_else_def error_toast_def init_def)
qed

text \<open>
  C6, amended. When the profile payload's status is not \<open>OK\<close>, the handler reports the
  remote comment itself when it is present and not empty, and \<open>User not found\<close> when it is
  absent or empty. The message thrown is the message logged and shown, unchanged. Only the
  profile URL is fetched: there is no history request, no result, and no profile is kept.
\<close>

theorem profile_failure_reported:
  assumes "trim (username s) \<noteq> []"
    and "user_info net (info_url (username s)) = Resolved code (Inr userData)"
    and "status userData \<noteq> ''OK''"
  shows "(\<forall>m. comment userData = Some m \<and> m \<noteq> [] \<longrightarrow>
            toasts (analyzeUser net s) = toasts s @ [error_toast m]
            \<and> console (analyzeUser net s) = console s @ [Error m])
     \<and> (comment userData = None \<or> comment userData = Some [] \<longrightarrow>
            toasts (analyzeUser net s) = toasts s @ [error_toast ''User not found'']
            \<and> console (analyzeUser net s) = console s @ [Error ''User not found''])
     \<and> requests (analyzeUser net s) = requests s @ [info_url (username s)]
     \<and> (\<forall>h. status_url h \<notin> set (drop (length (requests s)) (requests (analyzeUser net s))))
     \<and> result (analyzeUser net s) = None
     \<and> userInfo (analyzeUser net s) = None"
  unfolding profile_not_ok [OF assms]
  by (auto simp add: or_else_cases)

theorem profile_failure_reported_witness:
  "trim (username (init ''tourist'')) \<noteq> []
   \<and> user_info (serving 400 (failed_envelope (Some ''handle not found'')) (ok_envelope three_subs))
        (info_url (username (init ''tourist''))) =
      Resolved 400 (Inr (failed_envelope (Some ''handle not found'')))
   \<and> status (failed_envelope (Some ''handle not found'') :: Profile Envelope) \<noteq> ''OK''
   \<and> comment (failed_envelope (Some ''handle not found'') :: Profile Envelope) =
        Some ''handle not found''
   \<and> toasts (analyzeUser (serving 400 (failed_envelope (Some ''handle not found''))
        (ok_envelope three_subs)) (init ''tourist'')) = [error_toast ''handle not found'']
   \<and> requests (analyzeUser (serving 400 (failed_envelope (Some ''handle not found''))
        (ok_envelope three_subs)) (init ''tourist'')) =
      [''https://codeforces.com/api/user.info?handles=tourist'']
   \<and> user_info (serving 400 (failed_envelope None) (ok_envelope three_subs))
        (info_url (username (init ''tourist''))) = Resolved 400 (Inr (failed_envelope None))
   \<and> status (failed_envelope None :: Profile Envelope) \<noteq> ''OK''
   \<and> comment (failed_envelope None :: Profile Envelope) = None
   \<and> toasts (analyzeUser (serving 400 (failed_envelope None) (ok_envelope three_subs))
        (init ''tourist'')) = [error_toast ''User not found'']"
proof -
  let ?net = "serving 400 (failed_envelope (Some ''handle not found'')) (ok_envelope three_subs)"
  let ?net' = "serving 400 (failed_envelope None) (ok_envelope three_subs)"
  have h1: "trim (username (init ''tourist'')) \<noteq> []"
    by (simp add: init_def)
  have h2: "user_info ?net (info_url (username (init ''tourist''))) =
      Resolved 400 (Inr (failed_envelope (Some ''handle not found'')))"
    by (simp add: serving_def)
  have h3: "status (failed_envelope (Some ''handle not found'') :: Profile Envelope) \<noteq> ''OK''"
    by (simp add: failed_envelope_def)
  have c: "comment (failed_envelope (Some ''handle not found'') :: Profile Envelope) =
      Some ''handle not found''"
    by (simp add: failed_envelope_def)
  have h2': "user_info ?net' (info_url (username (init ''tourist''))) =
      Resolved 400 (Inr (failed_envelope None))"
    by (simp add: serving_def)
  have h3': "status (failed_envelope None :: Profile Envelope) \<noteq> ''OK''"
    by (simp add: failed_envelope_def)
  have c': "comment (failed_envelope None :: Profile Envelope) = None"
    by (simp add: failed_envelope_def)
  have A: "toasts (analyzeUser ?net (init ''tourist'')) = [error_toast ''handle not found'']
     \<and> requests (analyzeUser ?net (init ''tourist'')) =
          [''https://codeforces.com/api/user.info?handles=tourist'']"
    using profile_failure_reported [OF h1 h2 h3]
    by (simp add: c init_def info_url_def)
  have B: "toasts (analyzeUser ?net' (init ''tourist'')) = [error_toast ''User not found'']"
    using profile_failure_reported [OF h1 h2' h3']
    by (simp add: c' init_def)
  from h1 h2 h3 c h2' h3' c' A B show ?thesis
    by blast
qed

text \<open>
  C7, as stated, fails for a handle with white space around it: the handler trims only to
  test for emptiness, and interpolates \<open>username\<close> itself into both URLs.
\<close>

theorem untrimmed_handle_counterexample:
  "trim '' tourist '' = ''tourist''
   \<and> trim (username (init '' tourist '')) \<noteq> []
   \<and> requests (analyzeUser (serving 200 (ok_envelope [tourist]) (ok_envelope three_subs))
        (init '' tourist '')) =
      [''https://codeforces.com/api/user.info?handles= tourist '',
       ''https://codeforces.com/api/user.status?handle= tourist '']
   \<and> requests (analyzeUser (serving 200 (ok_envelope [tourist]) (ok_envelope three_subs))
        (init '' tourist '')) \<noteq>
      [info_url (trim '' tourist ''), status_url (trim '' tourist '')]"
proof -
  let ?net = "serving 200 (ok_envelope [tourist]) (ok_envelope three_subs)"
  have t: "trim '' tourist '' = ''tourist''"
    by (simp add: trim_def isWhiteSpace_def)
  have h1: "trim (username (init '' tourist '')) \<noteq> []"
    by (simp add: init_def t)
  have h2: "user_info ?net (info_url (username (init '' tourist ''))) =
      Resolved 200 (Inr (ok_envelope [tourist]))"
    by (simp add: serving_def)
  have h3: "status (ok_envelope [tourist]) = ''OK''"
    by (simp add: ok_envelope_def)
  show ?thesis
    unfolding profile_ok(2) [OF h1 h2 h3] t
    using h1 by (simp add: init_def info_url_def status_url_def)
qed

text \<open>
  C7, amended. For every handle that is not empty after trimming, the requests the handler
  issues are the profile request, or the profile request followed by the history request,
  and both URLs carry the same value: the handle exactly as entered, not trimmed.
\<close>

theorem requests_use_raw_handle:
  assumes "trim (username s) \<noteq> []"
  shows "requests (analyzeUser net s) = requests s @ [info_url (username s)]
       \<or> requests (analyzeUser net s) =
           requests s @ [info_url (username s), status_url (username s)]"
  using assms
  by (simp add: analyzeUser_def try_block_def catch_block_def Let_def
      split: fetched.splits sum.splits option.splits)

theorem requests_use_raw_handle_witness:
  "trim (username (init '' tourist '')) \<noteq> []
   \<and> requests (analyzeUser (serving 200 (ok_envelope [tourist]) (ok_envelope three_subs))
        (init '' tourist '')) =
      [info_url '' tourist '', status_url '' tourist '']"
proof -
  let ?net = "serving 200 (ok_envelope [tourist]) (ok_envelope three_subs)"
  have h1: "trim (username (init '' tourist '')) \<noteq> []"
    by (simp add: init_def trim_def isWhiteSpace_def)
  have h2: "user_info ?net (info_url (username (init '' tourist ''))) =
      Resolved 200 (Inr (ok_envelope [tourist]))"
    by (simp add: serving_def)
  have h3: "status (ok_envelope [tourist]) = ''OK''"
    by (simp add: ok_envelope_def)
  have "requests (analyzeUser ?net (init '' tourist '')) \<noteq>
      requests (init '' tourist '') @ [info_url (username (init '' tourist ''))]"
    unfolding profile_ok(2) [OF h1 h2 h3] by simp
  with requests_use_raw_handle [OF h1, of ?net] h1 show ?thesis
    by (simp add: init_def)
qed

text \<open>
  C10. When the profile payload's status is \<open>OK\<close>, the handler stores \<open>result[0]\<close> without
  looking at the length of the list. The stored profile is defined exactly when the list is
  not empty, and is then its first element. With an empty list the profile is absent and the
  handler goes on all the same: it issues the history request, and builds the result when
  the history payload is accepted.
\<close>

theorem first_profile_unchecked:
  assumes "trim (username s) \<noteq> []"
    and "user_info net (info_url (username s)) = Resolved code (Inr userData)"
    and "status userData = ''OK''"
  shows "userInfo (analyzeUser net s) = first (resultList userData)
     \<and> (first (resultList userData) \<noteq> None \<longleftrightarrow> resultList userData \<noteq> [])
     \<and> (resultList userData \<noteq> [] \<longrightarrow>
           userInfo (analyzeUser net s) = Some (hd (resultList userData)))
     \<and> (resultList userData = [] \<longrightarrow> userInfo (analyzeUser net s) = None)
     \<and> requests (analyzeUser net s) =
           requests s @ [info_url (username s), status_url (username s)]
     \<and> (\<forall>subs. history_of net (username s) = Some subs \<longrightarrow>
           result (analyzeUser net s) = Some (analysisResult subs))"
proof -
  have a: "\<forall>subs. history_of net (username s) = Some subs \<longrightarrow>
      result (analyzeUser net s) = Some (analysisResult subs)"
    using assms(1) by (simp add: analyzeUser_success)
  show ?thesis
    unfolding profile_ok [OF assms] using a
    by (simp add: first_def split: list.splits)
qed

theorem first_profile_unchecked_witness:
  "trim (username (init ''tourist'')) \<noteq> []
   \<and> user_info (serving 200 (ok_envelope []) (ok_envelope three_subs))
        (info_url (username (init ''tourist''))) = Resolved 200 (Inr (ok_envelope []))
   \<and> status (ok_envelope [] :: Profile Envelope) = ''OK''
   \<and> resultList (ok_envelope [] :: Profile Envelope) = []
   \<and> history_of (serving 200 (ok_envelope []) (ok_envelope three_subs))
        (username (init ''tourist'')) = Some three_subs
   \<and> userInfo (analyzeUser (serving 200 (ok_envelope []) (ok_envelope three_subs))
        (init ''tourist'')) = None
   \<and> result (analyzeUser (serving 200 (ok_envelope []) (ok_envelope three_subs))
        (init ''tourist'')) = Some (analysisResult three_subs)
   \<and> requests (analyzeUser (serving 200 (ok_envelope []) (ok_envelope three_subs))
        (init ''tourist'')) = [info_url ''tourist'', status_url ''tourist'']
   \<and> user_info (serving 200 (ok_envelope [tourist]) (ok_envelope three_subs))
        (info_url (username (init ''tourist''))) = Resolved 200 (Inr (ok_envelope [tourist]))
   \<and> status (ok_envelope [tourist]) = ''OK''
   \<and> resultList (ok_envelope [tourist]) \<noteq> []
   \<and> userInfo (analyzeUser (serving 200 (ok_envelope [tourist]) (ok_envelope three_subs))
        (init ''tourist'')) = Some tourist"
proof -
  let ?net = "serving 200 (ok_envelope []) (ok_envelope three_subs)"
  let ?net' = "serving 200 (ok_envelope [tourist]) (ok_envelope three_subs)"
  have h1: "trim (username (init ''tourist'')) \<noteq> []"
    by (simp add: init_def)
  have h2: "user_info ?net (info_url (username (init ''tourist''))) =
      Resolved 200 (Inr (ok_envelope []))"
    by (simp add: serving_def)
  have h3: "status (ok_envelope [] :: Profile Envelope) = ''OK''"
    by (simp add: ok_envelope_def)
  have e: "resultList (ok_envelope [] :: Profile Envelope) = []"
    by (simp add: ok_envelope_def)
  have h: "history_of ?net (username (init ''tourist'')) = Some three_subs"
    by simp
  have h2': "user_info ?net' (info_url (username (init ''tourist''))) =
      Resolved 200 (Inr (ok_envelope [tourist]))"
    by (simp add: serving_def)
  have h3': "status (ok_envelope [tourist]) = ''OK''"
    by (simp add: ok_envelope_def)
  have e': "resultList (ok_envelope [tourist]) = [tourist]"
    by (simp add: ok_envelope_def)
  have A: "userInfo (analyzeUser ?net (init ''tourist'')) = None
     \<and> result (analyzeUser ?net (init ''tourist'')) = Some (analysisResult three_subs)
     \<and> requests (analyzeUser ?net (init ''tourist'')) = [info_url ''tourist'', status_url ''tourist'']"
    using first_profile_unchecked [OF h1 h2 h3] e h
    by (simp add: init_def)
  have B: "userInfo (analyzeUser ?net' (init ''tourist'')) = Some tourist"
    using first_profile_unchecked [OF h1 h2' h3']
    by (simp add: e' first_def)
  from h1 h2 h3 e h h2' h3' e' A B show ?thesis
    by simp
qed

section \<open>The HTTP status code\<close>

lemma try_block_with_codes: "try_block (with_codes f net) s = try_block net s"
  by (simp add: try_block_def with_codes_def recode_def Let_def split: fetched.splits sum.splits)

lemma analyzeUser_with_codes: "analyzeUser (with_codes f net) s = analyzeUser net s"
  by (simp add: analyzeUser_def try_block_with_codes)

text \<open>
  C8, as stated, fails: the handler never reads the HTTP status (\<open>response.ok\<close> or
  \<open>response.status\<close>). With status 500 on both responses and payloads whose status is
  \<open>OK\<close>, neither fetch fails and the analysis is produced.
\<close>

theorem http_failure_status_counterexample:
  "user_info (serving 500 (ok_envelope [tourist]) (ok_envelope three_subs))
      (info_url ''tourist'') = Resolved 500 (Inr (ok_envelope [tourist]))
   \<and> user_status (serving 500 (ok_envelope [tourist]) (ok_envelope three_subs))
      (status_url ''tourist'') = Resolved 500 (Inr (ok_envelope three_subs))
   \<and> result (analyzeUser (serving 500 (ok_envelope [tourist]) (ok_envelope three_subs))
        (init ''tourist'')) = Some (analysisResult three_subs)
   \<and> userInfo (analyzeUser (serving 500 (ok_envelope [tourist]) (ok_envelope three_subs))
        (init ''tourist'')) = Some tourist
   \<and> map title (toasts (analyzeUser (serving 500 (ok_envelope [tourist]) (ok_envelope three_subs))
        (init ''tourist''))) = [''Potential Cheater Detected!'']"
proof -
  let ?net = "serving 500 (ok_envelope [tourist]) (ok_envelope three_subs)"
  have h1: "trim (username (init ''tourist'')) \<noteq> []"
    by (simp add: init_def)
  have h2: "user_info ?net (info_url (username (init ''tourist''))) =
      Resolved 500 (Inr (ok_envelope [tourist]))"
    by (simp add: serving_def)
  have h3: "status (ok_envelope [tourist]) = ''OK''"
    by (simp add: ok_envelope_def)
  have h: "history_of ?net (username (init ''tourist'')) = Some three_subs"
    by simp
  have sk: "skippedOf three_subs = [mk_submission 3 (Some ''SKIPPED'')]"
    by (simp add: skippedOf_def three_subs_def mk_submission_def)
  have t: "map title (toasts (analyzeUser ?net (init ''tourist''))) = [''Potential Cheater Detected!'']"
    by (simp add: analyzeUser_def try_block_def analyze_submissions_def Let_def serving_def
        ok_envelope_def init_def sk toast_def fetch_def)
  show ?thesis
    using analyzeUser_success [OF h1 h] profile_ok(1) [OF h1 h2 h3] t
    by (simp add: serving_def init_def first_def ok_envelope_def)
qed

text \<open>
  C8, amended. Failure is decided by the payload's embedded status alone. Replacing the
  HTTP status codes of the responses by any others changes nothing in what the handler
  does. A profile payload whose status is not \<open>OK\<close> is reported with its comment or
  \<open>User not found\<close>; a history payload whose status is not \<open>OK\<close>, after an accepted
  profile, is reported with its comment or \<open>Failed to fetch submissions\<close>; in both cases no
  result is produced.
\<close>

theorem failure_decided_by_payload_status:
  "analyzeUser (with_codes f net) s = analyzeUser net s
   \<and> (trim (username s) \<noteq> []
        \<and> user_info net (info_url (username s)) = Resolved code (Inr userData)
        \<and> status userData \<noteq> ''OK'' \<longrightarrow>
          toasts (analyzeUser net s) =
            toasts s @ [error_toast (or_else (comment userData) ''User not found'')]
          \<and> requests (analyzeUser net s) = requests s @ [info_url (username s)]
          \<and> result (analyzeUser net s) = None)
   \<and> (trim (username s) \<noteq> []
        \<and> user_info net (info_url (username s)) = Resolved code (Inr userData)
        \<and> status userData = ''OK''
        \<and> user_status net (status_url (username s)) = Resolved code' (Inr submissionsData)
        \<and> status submissionsData \<noteq> ''OK'' \<longrightarrow>
          toasts (analyzeUser net s) =
            toasts s @ [error_toast (or_else (comment submissionsData)
                                       ''Failed to fetch submissions'')]
          \<and> requests (analyzeUser net s) =
              requests s @ [info_url (username s), status_url (username s)]
          \<and> result (analyzeUser net s) = None)"
proof (intro conjI impI)
  show "analyzeUser (with_codes f net) s = analyzeUser net s"
    by (rule analyzeUser_with_codes)
next
  assume a: "trim (username s) \<noteq> []
        \<and> user_info net (info_url (username s)) = Resolved code (Inr userData)
        \<and> status userData \<noteq> ''OK''"
  then have e: "analyzeUser net s =
     (toast (error_toast (or_else (comment userData) ''User not found''))
        (fetch (info_url (username s)) (s\<lparr>loading := True, result := None, userInfo := None\<rparr>)
           \<lparr>console := console s @ [Error (or_else (comment userData) ''User not found'')]\<rparr>))
       \<lparr>loading := False\<rparr>"
    by (simp add: profile_not_ok)
  show "toasts (analyzeUser net s) =
            toasts s @ [error_toast (or_else (comment userData) ''User not found'')]"
    unfolding e by simp
  show "requests (analyzeUser net s) = requests s @ [info_url (username s)]"
    unfolding e by simp
  show "result (analyzeUser net s) = None"
    unfolding e by simp
next
  assume a: "trim (username s) \<noteq> []
        \<and> user_info net (info_url (username s)) = Resolved code (Inr userData)
        \<and> status userData = ''OK''
        \<and> user_status net (status_url (username s)) = Resolved code' (Inr submissionsData)
        \<and> status submissionsData \<noteq> ''OK''"
  have e: "analyzeUser net s =
     (toast (error_toast (or_else (comment submissionsData) ''Failed to fetch submissions''))
        (fetch (status_url (username s))
           (fetch (info_url (username s)) (s\<lparr>loading := True, result := None, userInfo := None\<rparr>)
              \<lparr>userInfo := first (resultList userData)\<rparr>)
           \<lparr>console := console s @ [Error (or_else (comment submissionsData)
                                          ''Failed to fetch submissions'')]\<rparr>))
       \<lparr>loading := False\<rparr>"
    using a by (intro history_not_ok) simp_all
  show "toasts (analyzeUser net s) =
            toasts s @ [error_toast (or_else (comment submissionsData)
                                       ''Failed to fetch submissions'')]"
    unfolding e by simp
  show "requests (analyzeUser net s) =
              requests s @ [info_url (username s), status_url (username s)]"
    unfolding e by simp
  show "result (analyzeUser net s) = None"
    unfolding e by simp
qed

theorem failure_decided_by_payload_status_witness:
  "(trim (username (init ''tourist'')) \<noteq> []
    \<and> user_info (serving 404 (failed_envelope (Some ''handle not found'')) (ok_envelope three_subs))
         (info_url (username (init ''tourist''))) =
       Resolved 404 (Inr (failed_envelope (Some ''handle not found'')))
    \<and> status (failed_envelope (Some ''handle not found'') :: Profile Envelope) \<noteq> ''OK'')
   \<and> toasts (analyzeUser (serving 404 (failed_envelope (Some ''handle not found''))
         (ok_envelope three_subs)) (init ''tourist'')) = [error_toast ''handle not found'']
   \<and> (trim (username (init ''tourist'')) \<noteq> []
    \<and> user_info (serving 400 (ok_envelope [tourist]) (failed_envelope None))
         (info_url (username (init ''tourist''))) = Resolved 400 (Inr (ok_envelope [tourist]))
    \<and> status (ok_envelope [tourist]) = ''OK''
    \<and> user_status (serving 400 (ok_envelope [tourist]) (failed_envelope None))
         (status_url (username (init ''tourist''))) = Resolved 400 (Inr (failed_envelope None))
    \<and> status (failed_envelope None :: Submission Envelope) \<noteq> ''OK'')
   \<and> toasts (analyzeUser (serving 400 (ok_envelope [tourist]) (failed_envelope None))
         (init ''tourist'')) = [error_toast ''Failed to fetch submissions'']
   \<and> analyzeUser (with_codes (\<lambda>c. 200) (serving 400 (ok_envelope [tourist]) (failed_envelope None)))
         (init ''tourist'') =
       analyzeUser (serving 400 (ok_envelope [tourist]) (failed_envelope None)) (init ''tourist'')"
proof -
  let ?netA = "serving 404 (failed_envelope (Some ''handle not found'')) (ok_envelope three_subs)"
  let ?netB = "serving 400 (ok_envelope [tourist]) (failed_envelope None)"
  have a: "trim (username (init ''tourist'')) \<noteq> []
    \<and> user_info ?netA (info_url (username (init ''tourist''))) =
       Resolved 404 (Inr (failed_envelope (Some ''handle not found'')))
    \<and> status (failed_envelope (Some ''handle not found'') :: Profile Envelope) \<noteq> ''OK''"
    by (simp add: init_def serving_def failed_envelope_def)
  have b: "trim (username (init ''tourist'')) \<noteq> []
    \<and> user_info ?netB (info_url (username (init ''tourist''))) =
         Resolved 400 (Inr (ok_envelope [tourist]))
    \<and> status (ok_envelope [tourist]) = ''OK''
    \<and> user_status ?netB (status_url (username (init ''tourist''))) =
         Resolved 400 (Inr (failed_envelope None))
    \<and> status (failed_envelope None :: Submission Envelope) \<noteq> ''OK''"
    by (simp add: init_def serving_def failed_envelope_def ok_envelope_def)
  have ca: "or_else (comment (failed_envelope (Some ''handle not found'') :: Profile Envelope))
      ''User not found'' = ''handle not found''"
    by (simp add: failed_envelope_def or_else_def)
  have cb: "or_else (comment (failed_envelope None :: Submission Envelope))
      ''Failed to fetch submissions'' = ''Failed to fetch submissions''"
    by (simp add: failed_envelope_def or_else_def)
  have ta: "toasts (init ''tourist'') = []"
    by (simp add: init_def)
  from failure_decided_by_payload_status
         [where net = ?netA and s = "init ''tourist''" and code = 404
            and userData = "failed_envelope (Some ''handle not found'')"]
       a
  have A: "toasts (analyzeUser ?netA (init ''tourist'')) = [error_toast ''handle not found'']"
    unfolding ca ta by simp
  from failure_decided_by_payload_status
         [where net = ?netB and s = "init ''tourist''" and code = 400
            and userData = "ok_envelope [tourist]" and code' = 400
            and submissionsData = "failed_envelope None" and f = "\<lambda>c. 200"]
       b
  have B: "toasts (analyzeUser ?netB (init ''tourist'')) = [error_toast ''Failed to fetch submissions'']
      \<and> analyzeUser (with_codes (\<lambda>c. 200) ?netB) (init ''tourist'') =
          analyzeUser ?netB (init ''tourist'')"
    unfolding cb ta by simp
  from a b A B show ?thesis
    by blast
qed

section \<open>The worked example\<close>

lemma skippedOf_eight:
  "skippedOf eight_of_twelve =
     map (\<lambda>p. mk_submission p (Some ''SKIPPED'')) [2, 4, 5, 8, 9, 10, 11, 12]"
  by (simp add: skippedOf_def eight_of_twelve_def mk_submission_def)

text \<open>
  C9. For every fetched list of twelve submissions of which eight, counted by position,
  carry the verdict \<open>SKIPPED\<close>, the count is 8, the percentage is the double
  \<open>66.66666666666666\<close> and prints as 66.7 with one decimal, and \<open>suspiciousSubmissions\<close>
  holds exactly those eight, in the order of the list, with nothing cut. This covers every
  list of twelve with eight skipped, wherever they sit, so every input the example can
  describe.
\<close>

theorem eight_of_twelve_skipped:
  assumes "trim (username s) \<noteq> []" and "history_of net (username s) = Some subs"
    and "length subs = 12"
    and "card {i. i < length subs \<and> verdict (subs ! i) = Some ''SKIPPED''} = 8"
  shows "\<exists>r. result (analyzeUser net s) = Some r
      \<and> skippedSubmissions r = 8
      \<and> skippedPercentage r = Finite (2345624805922133 / 35184372088832)
      \<and> toFixed1 (skippedPercentage r) = Some ''66.7''
      \<and> suspiciousSubmissions r = filter (\<lambda>sub. verdict sub = Some ''SKIPPED'') subs
      \<and> length (suspiciousSubmissions r) = 8
      \<and> subseq (suspiciousSubmissions r) subs"
proof -
  have r: "result (analyzeUser net s) = Some (analysisResult subs)"
    using assms(1,2) by (rule analyzeUser_success)
  have k: "length (skippedOf subs) = 8"
    unfolding skippedOf_def length_filter_conv_card using assms(4) .
  have d: "number_times (number_divide (Finite 8) (Finite 12)) (Finite 100) =
      Finite (2345624805922133 / 35184372088832)"
    by (simp add: double_eval)
  have p: "skippedPercentage (analysisResult subs) = Finite (2345624805922133 / 35184372088832)"
    using d by (simp add: assms(3) k)
  have f: "toFixed1 (Finite (2345624805922133 / 35184372088832)) = Some ''66.7''"
    by (simp add: toFixed1_def show_nat.simps)
  have q: "subseq (skippedOf subs) subs"
    unfolding skippedOf_def by (rule subseq_filter_left)
  have t: "take 10 (skippedOf subs) = skippedOf subs"
    using k by simp
  have s: "suspiciousSubmissions (analysisResult subs) = skippedOf subs"
    using t by simp
  show ?thesis
    unfolding r using p f q s k
    by (simp add: skippedOf_def)
qed

theorem eight_of_twelve_skipped_witness:
  "trim (username (init ''tourist'')) \<noteq> []
   \<and> history_of (serving 200 (ok_envelope [tourist]) (ok_envelope eight_of_twelve))
        (username (init ''tourist'')) = Some eight_of_twelve
   \<and> length eight_of_twelve = 12
   \<and> card {i. i < length eight_of_twelve \<and> verdict (eight_of_twelve ! i) = Some ''SKIPPED''} = 8
   \<and> (\<exists>r. result (analyzeUser (serving 200 (ok_envelope [tourist]) (ok_envelope eight_of_twelve))
                (init ''tourist'')) = Some r
        \<and> skippedSubmissions r = 8
        \<and> toFixed1 (skippedPercentage r) = Some ''66.7''
        \<and> suspiciousSubmissions r =
            map (\<lambda>p. mk_submission p (Some ''SKIPPED'')) [2, 4, 5, 8, 9, 10, 11, 12])"
proof -
  let ?net = "serving 200 (ok_envelope [tourist]) (ok_envelope eight_of_twelve)"
  have h1: "trim (username (init ''tourist'')) \<noteq> []"
    by (simp add: init_def)
  have h2: "history_of ?net (username (init ''tourist'')) = Some eight_of_twelve"
    by simp
  have h3: "length eight_of_twelve = 12"
    by (simp add: eight_of_twelve_def)
  have "length (skippedOf eight_of_twelve) = 8"
    by (simp add: skippedOf_eight)
  then have h4: "card {i. i < length eight_of_twelve
      \<and> verdict (eight_of_twelve ! i) = Some ''SKIPPED''} = 8"
    unfolding skippedOf_def length_filter_conv_card .
  have e: "filter (\<lambda>sub. verdict sub = Some ''SKIPPED'') eight_of_twelve =
      map (\<lambda>p. mk_submission p (Some ''SKIPPED'')) [2, 4, 5, 8, 9, 10, 11, 12]"
    using skippedOf_eight by (simp only: skippedOf_def)
  from eight_of_twelve_skipped [OF h1 h2 h3 h4] h1 h2 h3 h4 show ?thesis
    unfolding e by blast
qed


end
